theory Spec2Isabelle
  imports Main
begin

section \<open>Streamed writing of XLSX files: StreamFileBuilder and StreamFile\<close>

text \<open>
  A shallow embedding of \<^verbatim>\<open>stream_file_builder.go\<close> (package xlsx): the builder that
  registers sheets and writes the metadata files, and the stream file that writes rows to
  one sheet after another. Methods take the receiver's state and return the new state.
  A Go \<^verbatim>\<open>error\<close> is an \<open>error option\<close> (\<open>None\<close> is nil); a run-time panic is
  the outcome \<open>Panic\<close>. The field \<^verbatim>\<open>file\<close> is \<open>sf_file\<close> in the stream file and
  \<open>sb_file\<close> in the builder, whose other fields have the prefix \<open>sb_\<close> as well,
  and the unexported \<^verbatim>\<open>write\<close> is \<open>sf_write\<close>. Indices and counts are natural
  numbers: the code never makes them negative.
\<close>

subsection \<open>Errors and outcomes\<close>

datatype error =
    BuiltStreamFileBuilderError
  | NoCurrentSheetError
  | WrongNumberOfRowsError
  | AlreadyOnLastSheetError
  | ErrorsNew string
  | DuplicateSheetName string
  | ZipError string
  | SinkError
  | MarshalError string

datatype panic = IndexOutOfRange | SliceBoundsOutOfRange | NilDereference

datatype 'a outcome = Return 'a | Panic panic

subsection \<open>Constants\<close>

definition sheetFilePathPrefix :: string where
  "sheetFilePathPrefix = ''xl/worksheets/sheet''"

definition sheetFilePathSuffix :: string where
  "sheetFilePathSuffix = ''.xml''"

definition endSheetDataTag :: string where
  "endSheetDataTag = ''</sheetData>''"

subsection \<open>The workbook template (package xlsx, outside \<^verbatim>\<open>stream_file_builder.go\<close>)\<close>

type_synonym Col = nat

record Sheet =
  Name :: string
  Cols :: "Col list"
  Rows :: "string list list"

record File =
  Sheets :: "Sheet list"

type_synonym RefTable = "string list"

text \<open>
  The collaborators whose code is not part of the sources are parameters of the model:
  how many cells of a header the template row takes (\<^verbatim>\<open>Row.WriteSlice\<close>), the parts of
  the empty workbook in the order the map iteration of \<^verbatim>\<open>Build\<close> meets them
  (\<^verbatim>\<open>File.MarshallPartsForStreaming\<close>), the markup of one row
  (\<^verbatim>\<open>makeXLSXRowForStreaming\<close> followed by \<^verbatim>\<open>xml.Marshal\<close>), the markup of the
  shared strings (\<^verbatim>\<open>makeXLSXSST\<close> followed by \<^verbatim>\<open>marshalFullFile\<close>) and the path
  of the shared strings file. Where one of them fails it gives the message of its
  error, which the model returns as \<open>MarshalError\<close>; the rendering of the parts and
  of a row may intern strings in the table.
\<close>

record env =
  WriteSlice :: "string list \<Rightarrow> int \<Rightarrow> nat"
  MarshallPartsForStreaming :: "File \<Rightarrow> RefTable \<Rightarrow> (string + (string \<times> string) list) \<times> RefTable"
  makeXLSXRowForStreaming :: "nat \<Rightarrow> string list \<Rightarrow> RefTable \<Rightarrow> (string + string) \<times> RefTable"
  marshalSST :: "RefTable \<Rightarrow> string + string"
  sharedStringsFilePath :: string

text \<open>
  Modelled from the spec: \<^verbatim>\<open>RefTable.AddString\<close> is missing from the sources. The
  table is ordered and deduplicating: a string that was added before keeps its index,
  a new one is appended and gets the count before the insertion.
\<close>

fun index_of :: "string list \<Rightarrow> string \<Rightarrow> nat" where
  "index_of [] s = 0"
| "index_of (x # xs) s = (if x = s then 0 else Suc (index_of xs s))"

definition AddString :: "RefTable \<Rightarrow> string \<Rightarrow> nat \<times> RefTable" where
  "AddString rt s = (if s \<in> set rt then (index_of rt s, rt) else (length rt, rt @ [s]))"

text \<open>
  Modelled from the spec: \<^verbatim>\<open>File.AddSheet\<close> is missing from the sources. Sheet names
  are pairwise distinct; a duplicate is reported at registration. The new sheet is
  appended to the sheets of the file.
\<close>

definition File_AddSheet :: "File \<Rightarrow> string \<Rightarrow> error + (Sheet \<times> File)" where
  "File_AddSheet f name =
     (if name \<in> set (map Name (Sheets f)) then Inl (DuplicateSheetName name)
      else (let sheet = \<lparr>Name = name, Cols = [], Rows = []\<rparr>
            in Inr (sheet, f\<lparr>Sheets := Sheets f @ [sheet]\<rparr>)))"

text \<open>
  Modelled from the spec: \<^verbatim>\<open>Sheet.AddRow\<close> and \<^verbatim>\<open>Row.WriteSlice\<close> are missing from
  the sources. The header row is written to the last sheet of the file; the sheet gets
  one column for each cell the row took, and that count is returned. The column count
  of a sheet is fixed by its header row.
\<close>

definition Row_WriteSlice :: "env \<Rightarrow> File \<Rightarrow> string list \<Rightarrow> int \<Rightarrow> nat \<times> File" where
  "Row_WriteSlice e f headers cols =
     (let count = WriteSlice e headers cols;
          sheet = last (Sheets f);
          sheet' = sheet\<lparr>Cols := [0..<count], Rows := Rows sheet @ [take count headers]\<rparr>
      in (count, f\<lparr>Sheets := butlast (Sheets f) @ [sheet']\<rparr>))"

subsection \<open>The archive writer (archive/zip)\<close>

text \<open>
  The archive writer offers what the stream file needs of it: open a new named entry
  (which closes the entry before it), append bytes to the entry that is open, force the
  bytes towards the sink, and finish the archive. \<open>zw_entries\<close> are the entries in
  the order they were opened, each with the bytes written to it; the writer of an entry
  is its position in that list. \<open>zw_faults\<close> decides the calls to come: the head is
  \<open>True\<close> when the sink fails at the next call, and an empty list is a sink that
  never fails. A write to an entry that is no longer open is refused by the writer
  itself, and so is a second close. A call that fails leaves the bytes of the entries as
  they are.
\<close>

record zip_Writer =
  zw_entries :: "(string \<times> string) list"
  zw_last_open :: bool
  zw_closed :: bool
  zw_faults :: "bool list"

definition sink_fails :: "zip_Writer \<Rightarrow> bool" where
  "sink_fails zw = (case zw_faults zw of [] \<Rightarrow> False | b # _ \<Rightarrow> b)"

definition sink_step :: "zip_Writer \<Rightarrow> zip_Writer" where
  "sink_step zw = zw\<lparr>zw_faults := tl (zw_faults zw)\<rparr>"

definition zip_Create :: "zip_Writer \<Rightarrow> string \<Rightarrow> (error + nat) \<times> zip_Writer" where
  "zip_Create zw name =
     (if sink_fails zw then (Inl SinkError, (sink_step zw)\<lparr>zw_last_open := False\<rparr>)
      else (Inr (length (zw_entries zw)),
            (sink_step zw)\<lparr>zw_entries := zw_entries zw @ [(name, [])], zw_last_open := True\<rparr>))"

definition fileWriter_Write :: "zip_Writer \<Rightarrow> nat \<Rightarrow> string \<Rightarrow> error option \<times> zip_Writer" where
  "fileWriter_Write zw h data =
     (if zw_last_open zw \<and> Suc h = length (zw_entries zw) then
        (if sink_fails zw then (Some SinkError, sink_step zw)
         else (None, (sink_step zw)\<lparr>zw_entries :=
                 (zw_entries zw)[h := (fst (zw_entries zw ! h), snd (zw_entries zw ! h) @ data)]\<rparr>))
      else (Some (ZipError ''zip: write to closed file''), zw))"

definition zip_Flush :: "zip_Writer \<Rightarrow> error option \<times> zip_Writer" where
  "zip_Flush zw = (if sink_fails zw then (Some SinkError, sink_step zw) else (None, sink_step zw))"

definition zip_Close :: "zip_Writer \<Rightarrow> error option \<times> zip_Writer" where
  "zip_Close zw =
     (if zw_closed zw then (Some (ZipError ''zip: writer closed twice''), zw\<lparr>zw_last_open := False\<rparr>)
      else if sink_fails zw then (Some SinkError, (sink_step zw)\<lparr>zw_last_open := False, zw_closed := True\<rparr>)
      else (None, (sink_step zw)\<lparr>zw_last_open := False, zw_closed := True\<rparr>))"

subsection \<open>The stream file\<close>

record streamSheet =
  index :: nat
  rowCount :: nat
  columnCount :: nat
  writer :: "nat option"

record StreamFile =
  sf_file :: File
  sheetXmlPrefix :: "string list"
  sheetXmlSuffix :: "string list"
  zipWriter :: zip_Writer
  currentSheet :: "streamSheet option"
  refTable :: RefTable
  err :: "error option"

text \<open>\<^verbatim>\<open>streamSheet.write\<close>: a sheet whose entry could not be created has no writer.\<close>

definition streamSheet_write :: "StreamFile \<Rightarrow> streamSheet \<Rightarrow> string \<Rightarrow> (error option \<times> StreamFile) outcome" where
  "streamSheet_write sf ss data =
     (case writer ss of
        None \<Rightarrow> Panic NilDereference
      | Some h \<Rightarrow>
          (case fileWriter_Write (zipWriter sf) h data of
             (eo, zw) \<Rightarrow> Return (eo, sf\<lparr>zipWriter := zw\<rparr>)))"

definition writeSheetStart :: "StreamFile \<Rightarrow> (error option \<times> StreamFile) outcome" where
  "writeSheetStart sf =
     (case currentSheet sf of
        None \<Rightarrow> Return (Some NoCurrentSheetError, sf)
      | Some cs \<Rightarrow>
          (if 1 \<le> index cs \<and> index cs \<le> length (sheetXmlPrefix sf)
           then streamSheet_write sf cs (sheetXmlPrefix sf ! (index cs - 1))
           else Panic IndexOutOfRange))"

definition writeSheetEnd :: "StreamFile \<Rightarrow> (error option \<times> StreamFile) outcome" where
  "writeSheetEnd sf =
     (case currentSheet sf of
        None \<Rightarrow> Return (Some NoCurrentSheetError, sf)
      | Some cs \<Rightarrow>
          (case streamSheet_write sf cs endSheetDataTag of
             Panic p \<Rightarrow> Panic p
           | Return (Some e, sf') \<Rightarrow> Return (Some e, sf')
           | Return (None, sf') \<Rightarrow>
               (if 1 \<le> index cs \<and> index cs \<le> length (sheetXmlSuffix sf')
                then streamSheet_write sf' cs (sheetXmlSuffix sf' ! (index cs - 1))
                else Panic IndexOutOfRange)))"

text \<open>
  The unexported \<^verbatim>\<open>write\<close>. The row counter is incremented before the row is
  encoded, and the encoding may intern strings in the table, so both stay changed when a
  later step fails.
\<close>

definition sf_write :: "env \<Rightarrow> StreamFile \<Rightarrow> string list \<Rightarrow> (error option \<times> StreamFile) outcome" where
  "sf_write e sf cells =
     (case currentSheet sf of
        None \<Rightarrow> Return (Some NoCurrentSheetError, sf)
      | Some cs \<Rightarrow>
          (if length cells \<noteq> columnCount cs then Return (Some WrongNumberOfRowsError, sf)
           else
             (let cs' = cs\<lparr>rowCount := rowCount cs + 1\<rparr>;
                  sf1 = sf\<lparr>currentSheet := Some cs'\<rparr>
              in (case makeXLSXRowForStreaming e (rowCount cs' - 1) cells (refTable sf1) of
                    (Inl msg, rt) \<Rightarrow> Return (Some (MarshalError msg), sf1\<lparr>refTable := rt\<rparr>)
                  | (Inr rowBytes, rt) \<Rightarrow>
                      (case streamSheet_write (sf1\<lparr>refTable := rt\<rparr>) cs' rowBytes of
                         Panic p \<Rightarrow> Panic p
                       | Return (Some er, sf2) \<Rightarrow> Return (Some er, sf2)
                       | Return (None, sf2) \<Rightarrow>
                           (case zip_Flush (zipWriter sf2) of
                              (eo, zw) \<Rightarrow> Return (eo, sf2\<lparr>zipWriter := zw\<rparr>)))))))"

definition Write :: "env \<Rightarrow> StreamFile \<Rightarrow> string list \<Rightarrow> (error option \<times> StreamFile) outcome" where
  "Write e sf cells =
     (case err sf of
        Some er \<Rightarrow> Return (Some er, sf)
      | None \<Rightarrow>
          (case sf_write e sf cells of
             Panic p \<Rightarrow> Panic p
           | Return (Some er, sf') \<Rightarrow> Return (Some er, sf'\<lparr>err := Some er\<rparr>)
           | Return (None, sf') \<Rightarrow>
               (case zip_Flush (zipWriter sf') of
                  (eo, zw) \<Rightarrow> Return (eo, sf'\<lparr>zipWriter := zw\<rparr>))))"

fun WriteAll_loop :: "env \<Rightarrow> StreamFile \<Rightarrow> string list list \<Rightarrow> (error option \<times> StreamFile) outcome" where
  "WriteAll_loop e sf [] = Return (None, sf)"
| "WriteAll_loop e sf (row # records) =
     (case sf_write e sf row of
        Panic p \<Rightarrow> Panic p
      | Return (Some er, sf') \<Rightarrow> Return (Some er, sf'\<lparr>err := Some er\<rparr>)
      | Return (None, sf') \<Rightarrow> WriteAll_loop e sf' records)"

definition WriteAll :: "env \<Rightarrow> StreamFile \<Rightarrow> string list list \<Rightarrow> (error option \<times> StreamFile) outcome" where
  "WriteAll e sf records =
     (case err sf of
        Some er \<Rightarrow> Return (Some er, sf)
      | None \<Rightarrow>
          (case WriteAll_loop e sf records of
             Panic p \<Rightarrow> Panic p
           | Return (Some er, sf') \<Rightarrow> Return (Some er, sf')
           | Return (None, sf') \<Rightarrow>
               (case zip_Flush (zipWriter sf') of
                  (eo, zw) \<Rightarrow> Return (eo, sf'\<lparr>zipWriter := zw\<rparr>))))"

definition Error :: "StreamFile \<Rightarrow> error option" where
  "Error sf = err sf"

definition Flush :: "StreamFile \<Rightarrow> StreamFile" where
  "Flush sf =
     (case err sf of
        Some er \<Rightarrow> (case zip_Flush (zipWriter sf) of (eo, zw) \<Rightarrow> sf\<lparr>zipWriter := zw, err := eo\<rparr>)
      | None \<Rightarrow> sf)"

text \<open>\<^verbatim>\<open>strconv.Itoa\<close> on a number that is not negative.\<close>

definition digit_char :: "nat \<Rightarrow> char" where
  "digit_char d = ''0123456789'' ! d"

fun Itoa :: "nat \<Rightarrow> string" where
  "Itoa n = (if n < 10 then [digit_char n] else Itoa (n div 10) @ [digit_char (n mod 10)])"

declare Itoa.simps [simp del]

text \<open>
  \<^verbatim>\<open>NextSheet\<close>, lines 325 to 350: the sheet after \<open>sheetIndex\<close> becomes the current
  sheet, its entry is created and the start of its XML is written. Indexing the sheets of
  the file beyond their number panics.
\<close>

definition NextSheet_open :: "StreamFile \<Rightarrow> nat \<Rightarrow> (error option \<times> StreamFile) outcome" where
  "NextSheet_open sf sheetIndex0 =
     (let sheetIndex = sheetIndex0 + 1 in
      if length (Sheets (sf_file sf)) \<le> sheetIndex - 1 then Panic IndexOutOfRange
      else
        (let cs = \<lparr>index = sheetIndex, rowCount = 1,
                   columnCount = length (Cols (Sheets (sf_file sf) ! (sheetIndex - 1))),
                   writer = None\<rparr>;
             sf1 = sf\<lparr>currentSheet := Some cs\<rparr>;
             sheetPath = sheetFilePathPrefix @ Itoa (index cs) @ sheetFilePathSuffix
         in (case zip_Create (zipWriter sf1) sheetPath of
               (Inl er, zw) \<Rightarrow> Return (Some er, sf1\<lparr>zipWriter := zw, err := Some er\<rparr>)
             | (Inr fileWriter, zw) \<Rightarrow>
                 (let sf2 = sf1\<lparr>zipWriter := zw, currentSheet := Some (cs\<lparr>writer := Some fileWriter\<rparr>)\<rparr>
                  in (case writeSheetStart sf2 of
                        Panic p \<Rightarrow> Panic p
                      | Return (Some er, sf3) \<Rightarrow> Return (Some er, sf3\<lparr>err := Some er\<rparr>)
                      | Return (None, sf3) \<Rightarrow> Return (None, sf3))))))"

definition NextSheet :: "StreamFile \<Rightarrow> (error option \<times> StreamFile) outcome" where
  "NextSheet sf =
     (case err sf of
        Some er \<Rightarrow> Return (Some er, sf)
      | None \<Rightarrow>
          (case currentSheet sf of
             None \<Rightarrow> NextSheet_open sf 0
           | Some cs \<Rightarrow>
               (if length (Sheets (sf_file sf)) \<le> index cs
                then Return (Some AlreadyOnLastSheetError, sf\<lparr>err := Some AlreadyOnLastSheetError\<rparr>)
                else
                  (case writeSheetEnd sf of
                     Panic p \<Rightarrow> Panic p
                   | Return (Some er, sf') \<Rightarrow> Return (Some er, sf'\<lparr>currentSheet := None, err := Some er\<rparr>)
                   | Return (None, sf') \<Rightarrow> NextSheet_open sf' (index cs)))))"

text \<open>
  The loop of \<^verbatim>\<open>Close\<close> calls \<^verbatim>\<open>NextSheet\<close> while the index of the current sheet
  is below the number of sheets. \<open>sheets_left\<close> is the number of sheets after the
  current one: it decreases with every call that succeeds.
\<close>

definition sheets_left :: "StreamFile \<Rightarrow> nat" where
  "sheets_left sf =
     (case currentSheet sf of
        None \<Rightarrow> 0
      | Some cs \<Rightarrow> length (Sheets (sf_file sf)) - index cs)"

subsection \<open>What a successful step leaves unchanged\<close>

lemma streamSheet_write_fields:
  "streamSheet_write sf ss d = Return (eo, sf') \<Longrightarrow>
     sf_file sf' = sf_file sf \<and> currentSheet sf' = currentSheet sf \<and> err sf' = err sf
     \<and> sheetXmlPrefix sf' = sheetXmlPrefix sf \<and> sheetXmlSuffix sf' = sheetXmlSuffix sf
     \<and> refTable sf' = refTable sf"
  by (auto simp: streamSheet_write_def split: option.splits prod.splits)

lemma writeSheetStart_fields:
  "writeSheetStart sf = Return (eo, sf') \<Longrightarrow>
     sf_file sf' = sf_file sf \<and> currentSheet sf' = currentSheet sf \<and> err sf' = err sf
     \<and> sheetXmlPrefix sf' = sheetXmlPrefix sf \<and> sheetXmlSuffix sf' = sheetXmlSuffix sf
     \<and> refTable sf' = refTable sf"
  by (auto simp: writeSheetStart_def split: option.splits if_splits dest: streamSheet_write_fields)

lemma writeSheetEnd_fields:
  "writeSheetEnd sf = Return (eo, sf') \<Longrightarrow>
     sf_file sf' = sf_file sf \<and> currentSheet sf' = currentSheet sf \<and> err sf' = err sf
     \<and> sheetXmlPrefix sf' = sheetXmlPrefix sf \<and> sheetXmlSuffix sf' = sheetXmlSuffix sf
     \<and> refTable sf' = refTable sf"
  by (auto simp: writeSheetEnd_def split: option.splits outcome.splits prod.splits if_splits
      dest!: streamSheet_write_fields)


lemma NextSheet_open_success:
  assumes "NextSheet_open sf i = Return (None, sf')"
  shows "sf_file sf' = sf_file sf \<and> (\<exists>cs'. currentSheet sf' = Some cs' \<and> index cs' = i + 1)"
proof -
  let ?cs = "\<lparr>index = i + 1, rowCount = 1,
      columnCount = length (Cols (Sheets (sf_file sf) ! i)), writer = None\<rparr>"
  let ?p = "sheetFilePathPrefix @ Itoa (i + 1) @ sheetFilePathSuffix"
  from assms have inr: "\<not> length (Sheets (sf_file sf)) \<le> i"
    by (auto simp: NextSheet_open_def Let_def split: if_splits)
  obtain r zw where cr: "zip_Create (zipWriter sf) ?p = (r, zw)"
    by (cases "zip_Create (zipWriter sf) ?p") auto
  from assms inr cr obtain h where r: "r = Inr h"
    by (cases r) (auto simp: NextSheet_open_def Let_def)
  let ?sf2 = "sf\<lparr>currentSheet := Some ?cs, zipWriter := zw,
      currentSheet := Some (?cs\<lparr>writer := Some h\<rparr>)\<rparr>"
  from assms inr cr r have "writeSheetStart ?sf2 = Return (None, sf')"
    by (auto simp: NextSheet_open_def Let_def split: outcome.splits option.splits)
  from writeSheetStart_fields[OF this] show ?thesis by simp
qed

lemma NextSheet_success:
  assumes "NextSheet sf = Return (None, sf')" "currentSheet sf = Some cs"
  shows "sf_file sf' = sf_file sf \<and> (\<exists>cs'. currentSheet sf' = Some cs' \<and> index cs' = index cs + 1)"
proof -
  from assms have e: "err sf = None" and lt: "\<not> length (Sheets (sf_file sf)) \<le> index cs"
    by (auto simp: NextSheet_def split: option.splits if_splits)
  from assms e lt obtain sf1 where w: "writeSheetEnd sf = Return (None, sf1)"
    and o: "NextSheet_open sf1 (index cs) = Return (None, sf')"
    by (auto simp: NextSheet_def split: outcome.splits option.splits)
  from writeSheetEnd_fields[OF w] NextSheet_open_success[OF o] show ?thesis by simp
qed

lemma NextSheet_sheets_left:
  "NextSheet sf = Return (None, sf') \<Longrightarrow> currentSheet sf = Some cs \<Longrightarrow>
     index cs < length (Sheets (sf_file sf)) \<Longrightarrow> sheets_left sf' < sheets_left sf"
  using NextSheet_success[of sf sf' cs] by (auto simp: sheets_left_def)

function Close_loop :: "StreamFile \<Rightarrow> (error option \<times> StreamFile) outcome" where
  "Close_loop sf =
     (case currentSheet sf of
        None \<Rightarrow> Panic NilDereference
      | Some cs \<Rightarrow>
          (if index cs < length (Sheets (sf_file sf)) then
             (case NextSheet sf of
                Panic p \<Rightarrow> Panic p
              | Return (Some er, sf') \<Rightarrow> Return (Some er, sf'\<lparr>err := Some er\<rparr>)
              | Return (None, sf') \<Rightarrow> Close_loop sf')
           else Return (None, sf)))"
  by pat_completeness auto
termination
  by (relation "measure sheets_left") (auto dest: NextSheet_sheets_left)

declare Close_loop.simps [simp del]

text \<open>
  \<^verbatim>\<open>Close\<close>, lines 361 to 373 (the sheets that are left) and lines 375 to 393 (the
  shared strings and the end of the archive).
\<close>

definition Close_sheets :: "StreamFile \<Rightarrow> (error option \<times> StreamFile) outcome" where
  "Close_sheets sf =
     (case currentSheet sf of
        None \<Rightarrow> Return (None, sf)
      | Some _ \<Rightarrow>
          (case Close_loop sf of
             Panic p \<Rightarrow> Panic p
           | Return (Some er, sf') \<Rightarrow> Return (Some er, sf')
           | Return (None, sf') \<Rightarrow>
               (case writeSheetEnd sf' of
                  Panic p \<Rightarrow> Panic p
                | Return (Some er, sf'') \<Rightarrow> Return (Some er, sf''\<lparr>err := Some er\<rparr>)
                | Return (None, sf'') \<Rightarrow> Return (None, sf''))))"

definition Close_sharedStrings :: "env \<Rightarrow> StreamFile \<Rightarrow> (error option \<times> StreamFile) outcome" where
  "Close_sharedStrings e sf =
     (case marshalSST e (refTable sf) of
        Inl msg \<Rightarrow> Return (Some (MarshalError msg), sf)
      | Inr sharedStringsXML \<Rightarrow>
          (case zip_Create (zipWriter sf) (sharedStringsFilePath e) of
             (Inl er, zw) \<Rightarrow> Return (Some er, sf\<lparr>zipWriter := zw\<rparr>)
           | (Inr metadataFile, zw) \<Rightarrow>
               (case fileWriter_Write zw metadataFile sharedStringsXML of
                  (Some er, zw') \<Rightarrow> Return (Some er, sf\<lparr>zipWriter := zw'\<rparr>)
                | (None, zw') \<Rightarrow>
                    (case zip_Close zw' of
                       (Some er, zw'') \<Rightarrow> Return (Some er, sf\<lparr>zipWriter := zw'', err := Some er\<rparr>)
                     | (None, zw'') \<Rightarrow> Return (None, sf\<lparr>zipWriter := zw''\<rparr>)))))"

definition Close :: "env \<Rightarrow> StreamFile \<Rightarrow> (error option \<times> StreamFile) outcome" where
  "Close e sf =
     (case err sf of
        Some er \<Rightarrow> Return (Some er, sf)
      | None \<Rightarrow>
          (case Close_sheets sf of
             Panic p \<Rightarrow> Panic p
           | Return (Some er, sf') \<Rightarrow> Return (Some er, sf')
           | Return (None, sf') \<Rightarrow> Close_sharedStrings e sf'))"

subsection \<open>Strings (package strings and strconv)\<close>

text \<open>
  \<^verbatim>\<open>strings.HasPrefix\<close>, \<^verbatim>\<open>strings.Index\<close> (the first position at which the
  substring occurs) and \<^verbatim>\<open>strings.Split\<close>, which cuts at the first occurrence of
  the separator and goes on behind it. A string is its list of bytes; with an empty
  separator \<^verbatim>\<open>Split\<close> gives the characters one by one, which the code never asks
  for. \<^verbatim>\<open>strconv.Atoi\<close> reads an optional sign and decimal digits, and fails on
  anything else and on a number outside the 64 bits of \<^verbatim>\<open>int\<close>.
\<close>

definition HasPrefix :: "string \<Rightarrow> string \<Rightarrow> bool" where
  "HasPrefix s p = (length p \<le> length s \<and> take (length p) s = p)"

fun Index :: "string \<Rightarrow> string \<Rightarrow> nat option" where
  "Index [] substr = (if substr = [] then Some 0 else None)"
| "Index (c # cs) substr =
     (if HasPrefix (c # cs) substr then Some 0 else map_option Suc (Index cs substr))"

lemma Index_bound: "Index s substr = Some m \<Longrightarrow> m + length substr \<le> length s"
  by (induction s arbitrary: m) (auto simp: HasPrefix_def split: if_splits)

function Split :: "string \<Rightarrow> string \<Rightarrow> string list" where
  "Split s sep =
     (if sep = [] then map (\<lambda>c. [c]) s
      else (case Index s sep of
              None \<Rightarrow> [s]
            | Some m \<Rightarrow> take m s # Split (drop (m + length sep) s) sep))"
  by pat_completeness auto
termination
proof (relation "measure (\<lambda>(s, sep). length s)")
  show "wf (measure (\<lambda>(s, sep). length s))" by simp
next
  fix s sep :: string and m
  assume "sep \<noteq> []" "Index s sep = Some m"
  then have "0 < length sep" "m + length sep \<le> length s"
    by (auto dest: Index_bound)
  then have "length s - (m + length sep) < length s" by arith
  then show "((drop (m + length sep) s, sep), (s, sep)) \<in> measure (\<lambda>(s, sep). length s)"
    by simp
qed

declare Split.simps [simp del]

definition is_digit :: "char \<Rightarrow> bool" where
  "is_digit c = (48 \<le> (of_char c :: nat) \<and> (of_char c :: nat) \<le> 57)"

fun parse_digits :: "nat \<Rightarrow> string \<Rightarrow> nat option" where
  "parse_digits acc [] = Some acc"
| "parse_digits acc (c # cs) =
     (if is_digit c then parse_digits (10 * acc + (of_char c - 48)) cs else None)"

definition Atoi :: "string \<Rightarrow> int option" where
  "Atoi s =
     (let (neg, ds) =
            (case s of
               [] \<Rightarrow> (False, s)
             | c # cs \<Rightarrow>
                 if c = CHR ''-'' then (True, cs)
                 else if c = CHR ''+'' then (False, cs)
                 else (False, s))
      in if ds = [] then None
         else (case parse_digits 0 ds of
                 None \<Rightarrow> None
               | Some n \<Rightarrow>
                   (let v = (if neg then - int n else int n)
                    in if v < - (2 ^ 63) \<or> 2 ^ 63 - 1 < v then None else Some v)))"

subsection \<open>The builder\<close>

record StreamFileBuilder =
  built :: bool
  sb_file :: File
  sb_zipWriter :: zip_Writer
  sb_refTable :: RefTable

text \<open>The sink handed to \<^verbatim>\<open>NewStreamFileBuilder\<close> is given by its faults to come.\<close>

definition NewStreamFileBuilder :: "bool list \<Rightarrow> StreamFileBuilder" where
  "NewStreamFileBuilder sink =
     \<lparr>built = False,
      sb_file = \<lparr>Sheets = []\<rparr>,
      sb_zipWriter = \<lparr>zw_entries = [], zw_last_open = False, zw_closed = False, zw_faults = sink\<rparr>,
      sb_refTable = []\<rparr>"

definition AddSheet :: "env \<Rightarrow> StreamFileBuilder \<Rightarrow> string \<Rightarrow> string list \<Rightarrow> error option \<times> StreamFileBuilder" where
  "AddSheet e sb name headers =
     (if built sb then (Some BuiltStreamFileBuilderError, sb)
      else
        (case File_AddSheet (sb_file sb) name of
           Inl er \<Rightarrow> (Some er, sb\<lparr>built := True\<rparr>)
         | Inr (sheet, f) \<Rightarrow>
             (case Row_WriteSlice e f headers (- 1) of
                (count, f') \<Rightarrow>
                  (if count \<noteq> length headers
                   then (Some (ErrorsNew ''Failed to write headers''), sb\<lparr>sb_file := f', built := True\<rparr>)
                   else (None, sb\<lparr>sb_file := f'\<rparr>)))))"

fun AddSharedStrings_loop :: "RefTable \<Rightarrow> string list \<Rightarrow> RefTable" where
  "AddSharedStrings_loop rt [] = rt"
| "AddSharedStrings_loop rt (str # sharedStrings) =
     AddSharedStrings_loop (snd (AddString rt str)) sharedStrings"

definition AddSharedStrings :: "StreamFileBuilder \<Rightarrow> string list \<Rightarrow> StreamFileBuilder" where
  "AddSharedStrings sb sharedStrings =
     sb\<lparr>sb_refTable := AddSharedStrings_loop (sb_refTable sb) sharedStrings\<rparr>"

text \<open>
  \<^verbatim>\<open>getSheetIndex\<close>. The slice of the path between the prefix and the suffix panics
  when the path is shorter than both together. \<^verbatim>\<open>int\<close> has 64 bits.
\<close>

definition getSheetIndex :: "StreamFile \<Rightarrow> string \<Rightarrow> (error + nat) outcome" where
  "getSheetIndex sf path =
     (if length path < length sheetFilePathPrefix + length sheetFilePathSuffix
      then Panic SliceBoundsOutOfRange
      else
        (let indexString =
               take (length path - length sheetFilePathSuffix - length sheetFilePathPrefix)
                 (drop (length sheetFilePathPrefix) path)
         in (case Atoi indexString of
               None \<Rightarrow> Return (Inl (ErrorsNew ''Unexpected sheet file name from xlsx package''))
             | Some sheetXLSXIndex \<Rightarrow>
                 (if sheetXLSXIndex < 1 \<or> int (length (sheetXmlPrefix sf)) < sheetXLSXIndex \<or>
                     int (length (sheetXmlSuffix sf)) < sheetXLSXIndex \<or>
                     int (length (Sheets (sf_file sf))) < sheetXLSXIndex
                  then Return (Inl (ErrorsNew ''Unexpected sheet index''))
                  else Return (Inr (nat (sheetXLSXIndex - 1)))))))"

definition splitSheetIntoPrefixAndSuffix :: "string \<Rightarrow> error + (string \<times> string)" where
  "splitSheetIntoPrefixAndSuffix data =
     (let sheetParts = Split data endSheetDataTag
      in if length sheetParts \<noteq> 2
         then Inl (ErrorsNew ''Unexpected Sheet XML from. SheetData close tag not found.'')
         else Inr (sheetParts ! 0, sheetParts ! 1))"

definition processEmptySheetXML :: "StreamFile \<Rightarrow> string \<Rightarrow> string \<Rightarrow> (error option \<times> StreamFile) outcome" where
  "processEmptySheetXML sf path data =
     (case getSheetIndex sf path of
        Panic p \<Rightarrow> Panic p
      | Return (Inl er) \<Rightarrow> Return (Some er, sf)
      | Return (Inr sheetIndex) \<Rightarrow>
          (case splitSheetIntoPrefixAndSuffix data of
             Inl er \<Rightarrow> Return (Some er, sf)
           | Inr (prefix, suffix) \<Rightarrow>
               Return (None, sf\<lparr>sheetXmlPrefix := (sheetXmlPrefix sf)[sheetIndex := prefix],
                                sheetXmlSuffix := (sheetXmlSuffix sf)[sheetIndex := suffix]\<rparr>)))"

text \<open>
  The loop of \<^verbatim>\<open>Build\<close> over the parts: a sheet is split and kept for later, every
  other part is written to an entry of its own.
\<close>

fun Build_parts :: "StreamFile \<Rightarrow> (string \<times> string) list \<Rightarrow> (error option \<times> StreamFile) outcome" where
  "Build_parts es [] = Return (None, es)"
| "Build_parts es ((path, data) # parts) =
     (if HasPrefix path sheetFilePathPrefix then
        (case processEmptySheetXML es path data of
           Panic p \<Rightarrow> Panic p
         | Return (Some er, es') \<Rightarrow> Return (Some er, es')
         | Return (None, es') \<Rightarrow> Build_parts es' parts)
      else
        (case zip_Create (zipWriter es) path of
           (Inl er, zw) \<Rightarrow> Return (Some er, es\<lparr>zipWriter := zw\<rparr>)
         | (Inr metadataFile, zw) \<Rightarrow>
             (case fileWriter_Write zw metadataFile data of
                (Some er, zw') \<Rightarrow> Return (Some er, es\<lparr>zipWriter := zw'\<rparr>)
              | (None, zw') \<Rightarrow> Build_parts (es\<lparr>zipWriter := zw'\<rparr>) parts)))"

text \<open>The stream file of \<^verbatim>\<open>Build\<close>, lines 120 to 126.\<close>

definition Build_StreamFile :: "StreamFileBuilder \<Rightarrow> RefTable \<Rightarrow> StreamFile" where
  "Build_StreamFile sb rt =
     \<lparr>sf_file = sb_file sb,
      sheetXmlPrefix = replicate (length (Sheets (sb_file sb))) [],
      sheetXmlSuffix = replicate (length (Sheets (sb_file sb))) [],
      zipWriter = sb_zipWriter sb,
      currentSheet = None,
      refTable = rt,
      err = None\<rparr>"

text \<open>
  \<^verbatim>\<open>Build\<close> returns the stream file or an error, or panics; the builder it leaves
  is built. In the code the builder and the stream file hold the same file, table and
  archive writer; here each has its value at the end of \<^verbatim>\<open>Build\<close>, so a call on
  the builder after \<^verbatim>\<open>Build\<close> shows in the builder only. No theorem below follows
  such a call into the stream file.
\<close>

definition Build :: "env \<Rightarrow> StreamFileBuilder \<Rightarrow> (error + StreamFile) outcome \<times> StreamFileBuilder" where
  "Build e sb =
     (if built sb then (Return (Inl BuiltStreamFileBuilderError), sb)
      else
        (case MarshallPartsForStreaming e (sb_file sb) (sb_refTable sb) of
           (Inl msg, rt) \<Rightarrow> (Return (Inl (MarshalError msg)), sb\<lparr>built := True, sb_refTable := rt\<rparr>)
         | (Inr parts, rt) \<Rightarrow>
             (let sb' = sb\<lparr>built := True, sb_refTable := rt\<rparr> in
              case Build_parts (Build_StreamFile sb rt) parts of
                Panic p \<Rightarrow> (Panic p, sb')
              | Return (Some er, es) \<Rightarrow> (Return (Inl er), sb'\<lparr>sb_zipWriter := zipWriter es\<rparr>)
              | Return (None, es) \<Rightarrow>
                  (case NextSheet es of
                     Panic p \<Rightarrow> (Panic p, sb'\<lparr>sb_zipWriter := zipWriter es\<rparr>)
                   | Return (Some er, es') \<Rightarrow> (Return (Inl er), sb'\<lparr>sb_zipWriter := zipWriter es'\<rparr>)
                   | Return (None, es') \<Rightarrow> (Return (Inr es'), sb'\<lparr>sb_zipWriter := zipWriter es'\<rparr>)))))"

section \<open>Notions the theorems are stated with\<close>

text \<open>
  A session is active on sheet \<open>cs\<close> when no error is stored, the index of \<open>cs\<close>
  is that of a registered sheet and its column count the number of columns of that
  sheet, a prefix and a suffix are stored for every sheet, and the writer of \<open>cs\<close>
  is the entry of the archive that is open, which is the last one. \<open>sheetPath n\<close>
  is the path of the entry of sheet \<open>n\<close> (counted from 1), and \<open>append_to_last\<close>
  appends bytes to the last entry of the archive.
\<close>

definition active_on :: "StreamFile \<Rightarrow> streamSheet \<Rightarrow> bool" where
  "active_on sf cs =
     (err sf = None \<and> currentSheet sf = Some cs \<and>
      1 \<le> index cs \<and> index cs \<le> length (Sheets (sf_file sf)) \<and>
      columnCount cs = length (Cols (Sheets (sf_file sf) ! (index cs - 1))) \<and>
      length (sheetXmlPrefix sf) = length (Sheets (sf_file sf)) \<and>
      length (sheetXmlSuffix sf) = length (Sheets (sf_file sf)) \<and>
      zw_last_open (zipWriter sf) \<and> zw_closed (zipWriter sf) = False \<and>
      writer cs = Some (length (zw_entries (zipWriter sf)) - 1) \<and>
      zw_entries (zipWriter sf) \<noteq> [])"

definition sheetPath :: "nat \<Rightarrow> string" where
  "sheetPath n = sheetFilePathPrefix @ Itoa n @ sheetFilePathSuffix"

definition append_to_last :: "(string \<times> string) list \<Rightarrow> string \<Rightarrow> (string \<times> string) list" where
  "append_to_last es d = butlast es @ [(fst (last es), snd (last es) @ d)]"



text \<open>
  \<open>occurrences s sub\<close> is the number of positions of \<open>s\<close> at which \<open>sub\<close>
  occurs. The end tag of the sheet data cannot overlap itself, so \<^verbatim>\<open>strings.Split\<close>
  finds every occurrence.
\<close>

fun occurrences :: "string \<Rightarrow> string \<Rightarrow> nat" where
  "occurrences [] sub = (if sub = [] then 1 else 0)"
| "occurrences (c # cs) sub = (if HasPrefix (c # cs) sub then 1 else 0) + occurrences cs sub"




section \<open>Concrete collaborators and sessions\<close>

text \<open>
  A template collaborator that renders a workbook part and one empty sheet document for
  each sheet, a row encoding that concatenates the cells and interns them, and a session
  on the first sheet of a workbook with one sheet of two columns, as \<^verbatim>\<open>Build\<close>
  returns it.
\<close>

definition demo_parts :: "File \<Rightarrow> (string \<times> string) list" where
  "demo_parts f =
     (''xl/workbook.xml'', ''<workbook/>'') #
     map (\<lambda>i. (sheetFilePathPrefix @ Itoa (i + 1) @ sheetFilePathSuffix,
               ''<s'' @ Itoa (i + 1) @ ''>'' @ endSheetDataTag @ ''</s>''))
       [0..<length (Sheets f)]"

definition demo_env :: env where
  "demo_env =
     \<lparr>WriteSlice = (\<lambda>headers cols. length headers),
      MarshallPartsForStreaming = (\<lambda>f rt. (Inr (demo_parts f), rt)),
      makeXLSXRowForStreaming = (\<lambda>i cells rt. (Inr (''<row>'' @ concat cells @ ''</row>''), AddSharedStrings_loop rt cells)),
      marshalSST = (\<lambda>rt. Inr (''<sst>'' @ concat rt @ ''</sst>'')),
      sharedStringsFilePath = ''xl/sharedStrings.xml''\<rparr>"

definition demo_file1 :: File where
  "demo_file1 = \<lparr>Sheets = [\<lparr>Name = ''S1'', Cols = [0, 1], Rows = [[''A'', ''B'']]\<rparr>]\<rparr>"

definition demo_builder1 :: "bool list \<Rightarrow> StreamFileBuilder" where
  "demo_builder1 sink = \<lparr>built = False, sb_file = demo_file1,
     sb_zipWriter = \<lparr>zw_entries = [], zw_last_open = False, zw_closed = False, zw_faults = sink\<rparr>,
     sb_refTable = []\<rparr>"

definition demo_session1 :: "bool list \<Rightarrow> StreamFile" where
  "demo_session1 sink =
     \<lparr>sf_file = demo_file1,
      sheetXmlPrefix = [''<s1>''],
      sheetXmlSuffix = [''</s>''],
      zipWriter = \<lparr>zw_entries = [(''xl/workbook.xml'', ''<workbook/>''),
                                 (''xl/worksheets/sheet1.xml'', ''<s1>'')],
                   zw_last_open = True, zw_closed = False, zw_faults = sink\<rparr>,
      currentSheet = Some \<lparr>index = 1, rowCount = 1, columnCount = 2, writer = Some 1\<rparr>,
      refTable = [],
      err = None\<rparr>"

text \<open>The same for a workbook with two sheets, of two columns and of one.\<close>

definition demo_file2 :: File where
  "demo_file2 = \<lparr>Sheets = [\<lparr>Name = ''S1'', Cols = [0, 1], Rows = [[''A'', ''B'']]\<rparr>,
                            \<lparr>Name = ''S2'', Cols = [0], Rows = [[''C'']]\<rparr>]\<rparr>"

definition demo_session2 :: "bool list \<Rightarrow> StreamFile" where
  "demo_session2 sink =
     \<lparr>sf_file = demo_file2,
      sheetXmlPrefix = [''<s1>'', ''<s2>''],
      sheetXmlSuffix = [''</s>'', ''</s>''],
      zipWriter = \<lparr>zw_entries = [(''xl/workbook.xml'', ''<workbook/>''),
                                 (''xl/worksheets/sheet1.xml'', ''<s1>'')],
                   zw_last_open = True, zw_closed = False, zw_faults = sink\<rparr>,
      currentSheet = Some \<lparr>index = 1, rowCount = 1, columnCount = 2, writer = Some 1\<rparr>,
      refTable = [],
      err = None\<rparr>"




text \<open>
  A template collaborator whose sheet document has no end tag of the sheet data, the
  stream file of \<^verbatim>\<open>Build\<close> when the workbook part is written, and the builder of
  the workbook with one sheet after \<^verbatim>\<open>Build\<close>.
\<close>

definition demo_env_malformed :: env where
  "demo_env_malformed =
     demo_env\<lparr>MarshallPartsForStreaming :=
       (\<lambda>f rt. (Inr [(''xl/workbook.xml'', ''<workbook/>''), (''xl/worksheets/sheet1.xml'', ''<s/>'')], rt))\<rparr>"

definition demo_metadata1 :: StreamFile where
  "demo_metadata1 =
     \<lparr>sf_file = demo_file1,
      sheetXmlPrefix = [[]],
      sheetXmlSuffix = [[]],
      zipWriter = \<lparr>zw_entries = [(''xl/workbook.xml'', ''<workbook/>'')],
                   zw_last_open = True, zw_closed = False, zw_faults = []\<rparr>,
      currentSheet = None,
      refTable = [],
      err = None\<rparr>"

definition demo_built1 :: StreamFileBuilder where
  "demo_built1 =
     \<lparr>built = True, sb_file = demo_file1,
      sb_zipWriter = \<lparr>zw_entries = [(''xl/workbook.xml'', ''<workbook/>''),
                                    (''xl/worksheets/sheet1.xml'', ''<s1>'')],
                      zw_last_open = True, zw_closed = False, zw_faults = []\<rparr>,
      sb_refTable = []\<rparr>"

section \<open>The concrete sessions are the ones the builder makes\<close>

text \<open>
  Registering the sheet gives the builder of the workbook with one sheet, and
  \<^verbatim>\<open>Build\<close> on a sink that works gives the sessions above.
\<close>

lemmas zip_defs = zip_Create_def fileWriter_Write_def zip_Flush_def zip_Close_def
  sink_fails_def sink_step_def

lemmas session_defs = Write_def WriteAll_def sf_write_def Flush_def NextSheet_def
  NextSheet_open_def writeSheetStart_def writeSheetEnd_def streamSheet_write_def
  Close_def Close_sheets_def Close_sharedStrings_def Close_loop.simps

lemma demo_builder1_registered:
  "AddSheet demo_env (NewStreamFileBuilder sink) ''S1'' [''A'', ''B''] = (None, demo_builder1 sink)"
  by (simp add: AddSheet_def NewStreamFileBuilder_def File_AddSheet_def Row_WriteSlice_def
      demo_env_def demo_builder1_def demo_file1_def Let_def upt_rec)

lemma demo_session1_built:
  "fst (Build demo_env (demo_builder1 (False # False # False # False # sink))) = Return (Inr (demo_session1 sink))"
  by (simp add: Build_def demo_builder1_def demo_env_def demo_parts_def demo_file1_def
      Build_StreamFile_def HasPrefix_def sheetFilePathPrefix_def sheetFilePathSuffix_def
      Itoa.simps digit_char_def zip_Create_def fileWriter_Write_def sink_fails_def sink_step_def
      processEmptySheetXML_def getSheetIndex_def Atoi_def is_digit_def
      splitSheetIntoPrefixAndSuffix_def Split.simps endSheetDataTag_def Let_def
      NextSheet_def NextSheet_open_def writeSheetStart_def streamSheet_write_def demo_session1_def)

lemma demo_session2_built:
  "fst (Build demo_env (\<lparr>built = False, sb_file = demo_file2,
     sb_zipWriter = \<lparr>zw_entries = [], zw_last_open = False, zw_closed = False, zw_faults = []\<rparr>,
     sb_refTable = []\<rparr>)) = Return (Inr (demo_session2 []))"
  by (simp add: Build_def demo_env_def demo_parts_def demo_file2_def
      Build_StreamFile_def HasPrefix_def sheetFilePathPrefix_def sheetFilePathSuffix_def
      Itoa.simps digit_char_def zip_defs
      processEmptySheetXML_def getSheetIndex_def Atoi_def is_digit_def
      splitSheetIntoPrefixAndSuffix_def Split.simps endSheetDataTag_def Let_def
      NextSheet_def NextSheet_open_def writeSheetStart_def streamSheet_write_def demo_session2_def upt_rec)

lemma demo_built1_built: "snd (Build demo_env (demo_builder1 [])) = demo_built1"
  by (simp add: Build_def demo_builder1_def demo_env_def demo_parts_def demo_file1_def
      Build_StreamFile_def HasPrefix_def sheetFilePathPrefix_def sheetFilePathSuffix_def
      Itoa.simps digit_char_def zip_defs
      processEmptySheetXML_def getSheetIndex_def Atoi_def is_digit_def
      splitSheetIntoPrefixAndSuffix_def Split.simps endSheetDataTag_def Let_def
      NextSheet_def NextSheet_open_def writeSheetStart_def streamSheet_write_def demo_built1_def)

lemmas demo_defs = demo_env_def demo_file1_def demo_session1_def demo_file2_def demo_session2_def

section \<open>The sticky error\<close>



lemma sticky_NextSheet: "err sf = Some er \<Longrightarrow> NextSheet sf = Return (Some er, sf)"
  by (simp add: NextSheet_def)

lemma sticky_Close: "err sf = Some er \<Longrightarrow> Close e sf = Return (Some er, sf)"
  by (simp add: Close_def)

text \<open>
  C1: once the stored error is set it stays set, every later call fails, and no
  operation resets it to nil. \<^verbatim>\<open>Flush\<close> breaks this: it flushes the archive writer
  only when an error is stored, and stores the result of that flush. On the session with
  one sheet, a second \<^verbatim>\<open>NextSheet\<close> stores \<^verbatim>\<open>AlreadyOnLastSheetError\<close>; after
  \<^verbatim>\<open>Flush\<close> on a sink that works the stored error is nil again, and the next
  \<^verbatim>\<open>Write\<close> succeeds.
\<close>

theorem Flush_resets_sticky_error:
  "NextSheet (demo_session1 []) =
     Return (Some AlreadyOnLastSheetError, (demo_session1 [])\<lparr>err := Some AlreadyOnLastSheetError\<rparr>)
   \<and> err (Flush ((demo_session1 [])\<lparr>err := Some AlreadyOnLastSheetError\<rparr>)) = None
   \<and> (\<exists>sf'. Write demo_env (Flush ((demo_session1 [])\<lparr>err := Some AlreadyOnLastSheetError\<rparr>)) [''1'', ''2'']
          = Return (None, sf'))"
  by (simp add: session_defs zip_defs demo_defs)

text \<open>
  C2: every error a call returns is stored in the session before the call returns, also
  the errors of the shared strings at the end of \<^verbatim>\<open>Close\<close>. \<^verbatim>\<open>Close\<close> breaks
  this: when the entry of the shared strings cannot be created (the sink fails at the
  third call: the end of the sheet is two writes), when the shared strings cannot be
  written to it (the sink fails at the fourth call), and when they cannot be marshalled,
  the error is returned and the stored error stays nil. The same holds for
  the flush that ends \<^verbatim>\<open>WriteAll\<close>, here with no rows, on a sink that fails at the
  next call.
\<close>

theorem Close_error_not_recorded:
  "(\<exists>sf'. Close demo_env (demo_session1 [False, False, True]) = Return (Some SinkError, sf')
          \<and> err sf' = None)
   \<and> (\<exists>sf'. Close demo_env (demo_session1 [False, False, False, True]) = Return (Some SinkError, sf')
          \<and> err sf' = None)
   \<and> (\<exists>sf'. Close (demo_env\<lparr>marshalSST := (\<lambda>rt. Inl ''sst'')\<rparr>) (demo_session1 [])
          = Return (Some (MarshalError ''sst''), sf') \<and> err sf' = None)
   \<and> (\<exists>sf'. WriteAll demo_env (demo_session1 [True]) [] = Return (Some SinkError, sf')
          \<and> err sf' = None)"
  by (simp add: session_defs zip_defs demo_defs endSheetDataTag_def)

section \<open>Moving to the next sheet\<close>

text \<open>
  On a sink that works, a write through the writer of the open entry appends to the last
  entry of the archive; so the end of a sheet is one append of the end tag and the
  suffix, and the start of the next sheet is a new entry that holds its prefix.
\<close>

lemma update_last: "Suc h = length es \<Longrightarrow> es[h := x] = butlast es @ [x]"
  by (induction es arbitrary: h rule: rev_induct) auto

lemma nth_last: "Suc h = length es \<Longrightarrow> es ! h = last es"
  by (induction es arbitrary: h rule: rev_induct) auto











subsection \<open>The sessions a caller holds are active\<close>

text \<open>
  The stream file that \<^verbatim>\<open>Build\<close> returns is active on its first sheet, and it
  stays active after every \<^verbatim>\<open>Write\<close> and \<^verbatim>\<open>NextSheet\<close> that succeeds, whatever
  the sink does.
\<close>

lemma zip_Create_Inr:
  "zip_Create zw name = (Inr h, zw') \<Longrightarrow>
     h = length (zw_entries zw) \<and> zw_entries zw' = zw_entries zw @ [(name, [])]
     \<and> zw_last_open zw' \<and> zw_closed zw' = zw_closed zw"
  by (auto simp: zip_Create_def sink_step_def split: if_splits)

lemma zip_Create_closed: "zip_Create zw name = (r, zw') \<Longrightarrow> zw_closed zw' = zw_closed zw"
  by (auto simp: zip_Create_def sink_step_def split: if_splits)

lemma fileWriter_Write_None:
  "fileWriter_Write zw h d = (None, zw') \<Longrightarrow>
     length (zw_entries zw') = length (zw_entries zw) \<and> Suc h = length (zw_entries zw)
     \<and> zw_last_open zw' \<and> zw_closed zw' = zw_closed zw"
  by (auto simp: fileWriter_Write_def sink_step_def split: if_splits)

lemma fileWriter_Write_closed: "fileWriter_Write zw h d = (r, zw') \<Longrightarrow> zw_closed zw' = zw_closed zw"
  by (auto simp: fileWriter_Write_def sink_step_def split: if_splits)

lemma NextSheet_open_active:
  assumes "NextSheet_open sf i = Return (None, sf')" "err sf = None"
    "length (sheetXmlPrefix sf) = length (Sheets (sf_file sf))"
    "length (sheetXmlSuffix sf) = length (Sheets (sf_file sf))"
    "zw_closed (zipWriter sf) = False"
  shows "\<exists>cs'. active_on sf' cs' \<and> index cs' = i + 1"
proof -
  let ?cs = "\<lparr>index = i + 1, rowCount = 1,
      columnCount = length (Cols (Sheets (sf_file sf) ! i)), writer = None\<rparr>"
  let ?p = "sheetFilePathPrefix @ Itoa (i + 1) @ sheetFilePathSuffix"
  from assms have inr: "\<not> length (Sheets (sf_file sf)) \<le> i"
    by (auto simp: NextSheet_open_def Let_def split: if_splits)
  obtain r zw where cr: "zip_Create (zipWriter sf) ?p = (r, zw)"
    by (cases "zip_Create (zipWriter sf) ?p") auto
  from assms inr cr obtain h where r: "r = Inr h"
    by (cases r) (auto simp: NextSheet_open_def Let_def)
  let ?cs' = "?cs\<lparr>writer := Some h\<rparr>"
  let ?sf2 = "sf\<lparr>currentSheet := Some ?cs, zipWriter := zw, currentSheet := Some ?cs'\<rparr>"
  from assms inr cr r have ws: "writeSheetStart ?sf2 = Return (None, sf')"
    by (auto simp: NextSheet_open_def Let_def split: outcome.splits option.splits)
  then obtain zw' where fw: "fileWriter_Write zw h (sheetXmlPrefix sf ! i) = (None, zw')"
    and sf': "sf' = ?sf2\<lparr>zipWriter := zw'\<rparr>"
    by (auto simp: writeSheetStart_def streamSheet_write_def split: if_splits prod.splits)
  from zip_Create_Inr [OF cr [unfolded r]] fileWriter_Write_None [OF fw] assms inr
  have "active_on sf' ?cs'"
    by (auto simp: active_on_def sf')
  then show ?thesis by (intro exI [of _ ?cs']) simp
qed

lemma processEmptySheetXML_fields:
  "processEmptySheetXML sf path data = Return (None, sf') \<Longrightarrow>
     sf_file sf' = sf_file sf \<and> currentSheet sf' = currentSheet sf \<and> err sf' = err sf
     \<and> length (sheetXmlPrefix sf') = length (sheetXmlPrefix sf)
     \<and> length (sheetXmlSuffix sf') = length (sheetXmlSuffix sf)
     \<and> zipWriter sf' = zipWriter sf \<and> refTable sf' = refTable sf"
  by (auto simp: processEmptySheetXML_def split: outcome.splits sum.splits)

lemma Build_parts_fields:
  "Build_parts es parts = Return (None, es') \<Longrightarrow>
     sf_file es' = sf_file es \<and> currentSheet es' = currentSheet es \<and> err es' = err es
     \<and> length (sheetXmlPrefix es') = length (sheetXmlPrefix es)
     \<and> length (sheetXmlSuffix es') = length (sheetXmlSuffix es)
     \<and> zw_closed (zipWriter es') = zw_closed (zipWriter es) \<and> refTable es' = refTable es"
proof (induction es parts rule: Build_parts.induct)
  case (1 es)
  then show ?case by simp
next
  case (2 es path data parts)
  show ?case
  proof (cases "HasPrefix path sheetFilePathPrefix")
    case True
    with "2.prems" obtain es1 where p: "processEmptySheetXML es path data = Return (None, es1)"
      and b: "Build_parts es1 parts = Return (None, es')"
      by (auto split: outcome.splits option.splits)
    from "2.IH"(1) [OF True p refl refl b] processEmptySheetXML_fields [OF p]
    show ?thesis by simp
  next
    case False
    obtain r zw where cr: "zip_Create (zipWriter es) path = (r, zw)"
      by (cases "zip_Create (zipWriter es) path") auto
    with False "2.prems" obtain h where r: "r = Inr h"
      by (cases r) auto
    obtain eo zw' where fw: "fileWriter_Write zw h data = (eo, zw')"
      by (cases "fileWriter_Write zw h data") auto
    with False "2.prems" cr r have eo: "eo = None"
      and b: "Build_parts (es\<lparr>zipWriter := zw'\<rparr>) parts = Return (None, es')"
      by (cases eo; simp)+
    from "2.IH"(2) [OF False cr [unfolded r, symmetric] refl fw [unfolded eo, symmetric] refl b]
      zip_Create_closed [OF cr] fileWriter_Write_closed [OF fw]
    show ?thesis by simp
  qed
qed

lemma Build_active:
  assumes "fst (Build e sb) = Return (Inr sf)" "zw_closed (sb_zipWriter sb) = False"
  shows "\<exists>cs. active_on sf cs \<and> index cs = 1"
proof -
  from assms(1) have nb: "\<not> built sb"
    by (auto simp: Build_def)
  obtain r rt where m: "MarshallPartsForStreaming e (sb_file sb) (sb_refTable sb) = (r, rt)"
    by (cases "MarshallPartsForStreaming e (sb_file sb) (sb_refTable sb)") auto
  with assms(1) nb obtain parts where r: "r = Inr parts"
    by (cases r) (auto simp: Build_def)
  from assms(1) nb m r obtain es where bp: "Build_parts (Build_StreamFile sb rt) parts = Return (None, es)"
    and ns: "NextSheet es = Return (None, sf)"
    by (auto simp: Build_def Let_def split: outcome.splits option.splits)
  from Build_parts_fields [OF bp] assms(2)
  have f: "currentSheet es = None" "err es = None"
    "length (sheetXmlPrefix es) = length (Sheets (sf_file es))"
    "length (sheetXmlSuffix es) = length (Sheets (sf_file es))"
    "zw_closed (zipWriter es) = False"
    by (simp_all add: Build_StreamFile_def)
  with ns have "NextSheet_open es 0 = Return (None, sf)"
    by (simp add: NextSheet_def)
  from NextSheet_open_active [OF this f(2-5)] show ?thesis by simp
qed

lemma zip_Flush_fields:
  "zip_Flush zw = (eo, zw') \<Longrightarrow>
     zw_entries zw' = zw_entries zw \<and> zw_last_open zw' = zw_last_open zw \<and> zw_closed zw' = zw_closed zw"
  by (auto simp: zip_Flush_def sink_step_def split: if_splits)

lemma sf_write_active:
  assumes a: "active_on sf cs" and w: "sf_write e sf cells = Return (None, sf')"
  shows "active_on sf' (cs\<lparr>rowCount := rowCount cs + 1\<rparr>)"
proof -
  let ?cs' = "cs\<lparr>rowCount := rowCount cs + 1\<rparr>"
  from a have cur: "currentSheet sf = Some cs" by (simp add: active_on_def)
  from w cur have len: "length cells = columnCount cs"
    by (auto simp: sf_write_def split: if_splits)
  obtain r rt where m: "makeXLSXRowForStreaming e (rowCount ?cs' - 1) cells (refTable sf) = (r, rt)"
    by (cases "makeXLSXRowForStreaming e (rowCount ?cs' - 1) cells (refTable sf)") auto
  from w cur len m obtain rowBytes where r: "r = Inr rowBytes"
    by (cases r) (auto simp: sf_write_def Let_def)
  from w cur len m r obtain h where h: "writer cs = Some h"
    by (cases "writer cs") (auto simp: sf_write_def Let_def streamSheet_write_def)
  obtain eo1 zw where fw: "fileWriter_Write (zipWriter sf) h rowBytes = (eo1, zw)"
    by (cases "fileWriter_Write (zipWriter sf) h rowBytes") auto
  obtain eo2 zw' where fl: "zip_Flush zw = (eo2, zw')"
    by (cases "zip_Flush zw") auto
  from w cur len m r h fw fl have eo1: "eo1 = None"
    and sf': "sf' = sf\<lparr>currentSheet := Some ?cs', refTable := rt, zipWriter := zw'\<rparr>"
    by (cases eo1; auto simp: sf_write_def Let_def streamSheet_write_def)+
  from fileWriter_Write_None [OF fw [unfolded eo1]] zip_Flush_fields [OF fl] a h
  show ?thesis
    by (auto simp: active_on_def sf')
qed

lemma Write_active:
  assumes a: "active_on sf cs" and w: "Write e sf cells = Return (None, sf')"
  shows "active_on sf' (cs\<lparr>rowCount := rowCount cs + 1\<rparr>)"
proof -
  from a have e: "err sf = None" by (simp add: active_on_def)
  with w obtain sf1 where s: "sf_write e sf cells = Return (None, sf1)"
    by (auto simp: Write_def split: outcome.splits option.splits)
  obtain eo zw where fl: "zip_Flush (zipWriter sf1) = (eo, zw)"
    by (cases "zip_Flush (zipWriter sf1)") auto
  with w e s have sf': "sf' = sf1\<lparr>zipWriter := zw\<rparr>"
    by (simp add: Write_def)
  from sf_write_active [OF a s] zip_Flush_fields [OF fl] show ?thesis
    by (auto simp: active_on_def sf')
qed



section \<open>Closing the stream file\<close>








section \<open>Writing rows\<close>

text \<open>
  A sheet that is registered with a header gets one column for each cell of the header,
  and the sheets registered before it stay as they are.
\<close>

lemma AddSheet_columns:
  assumes "AddSheet e sb name headers = (None, sb')"
  shows "\<exists>sheet. Sheets (sb_file sb') = Sheets (sb_file sb) @ [sheet]
           \<and> length (Cols sheet) = length headers"
  using assms
  by (auto simp: AddSheet_def File_AddSheet_def Row_WriteSlice_def Let_def
      split: if_splits sum.splits prod.splits)

lemma sf_write_wrong_count:
  "currentSheet sf = Some cs \<Longrightarrow> length cells \<noteq> columnCount cs \<Longrightarrow>
     sf_write e sf cells = Return (Some WrongNumberOfRowsError, sf)"
  by (simp add: sf_write_def)

lemma fileWriter_Write_not_count: "fileWriter_Write zw h d \<noteq> (Some WrongNumberOfRowsError, zw')"
  by (auto simp: fileWriter_Write_def split: if_splits)

lemma zip_Flush_not_count: "zip_Flush zw \<noteq> (Some WrongNumberOfRowsError, zw')"
  by (auto simp: zip_Flush_def split: if_splits)

lemma sf_write_right_count:
  assumes "currentSheet sf = Some cs" "length cells = columnCount cs"
  shows "sf_write e sf cells \<noteq> Return (Some WrongNumberOfRowsError, sf')"
proof
  assume w: "sf_write e sf cells = Return (Some WrongNumberOfRowsError, sf')"
  let ?cs' = "cs\<lparr>rowCount := rowCount cs + 1\<rparr>"
  let ?sf1 = "sf\<lparr>currentSheet := Some ?cs'\<rparr>"
  obtain r rt where m: "makeXLSXRowForStreaming e (rowCount ?cs' - 1) cells (refTable ?sf1) = (r, rt)"
    by (cases "makeXLSXRowForStreaming e (rowCount ?cs' - 1) cells (refTable ?sf1)") auto
  from w assms m obtain rowBytes where r: "r = Inr rowBytes"
    by (cases r) (auto simp: sf_write_def Let_def)
  from w assms m r obtain h where h: "writer cs = Some h"
    by (cases "writer cs") (auto simp: sf_write_def Let_def streamSheet_write_def)
  obtain eo zw where fw: "fileWriter_Write (zipWriter sf) h rowBytes = (eo, zw)"
    by (cases "fileWriter_Write (zipWriter sf) h rowBytes") auto
  obtain eo' zw' where fl: "zip_Flush zw = (eo', zw')"
    by (cases "zip_Flush zw") auto
  from fw fl fileWriter_Write_not_count [of "zipWriter sf" h rowBytes zw] zip_Flush_not_count [of zw zw']
  have "eo \<noteq> Some WrongNumberOfRowsError" "eo' \<noteq> Some WrongNumberOfRowsError" by auto
  with w assms m r h fw fl show False
    by (cases eo) (auto simp: sf_write_def Let_def streamSheet_write_def)
qed

text \<open>
  C5: a sheet registered with \<open>k\<close> header cells has \<open>k\<close> columns. On a session
  that is active on a sheet of \<open>k\<close> columns, \<^verbatim>\<open>Write\<close> of exactly \<open>k\<close> cells
  does not fail with \<^verbatim>\<open>WrongNumberOfRowsError\<close>, and \<^verbatim>\<open>Write\<close> of any other number
  of cells fails with it, stores it, and leaves the row counter of the sheet and the
  archive as they are.
\<close>

theorem Write_column_count:
  "(AddSheet e sb name headers = (None, sb') \<longrightarrow>
      (\<exists>sheet. Sheets (sb_file sb') = Sheets (sb_file sb) @ [sheet]
         \<and> length (Cols sheet) = length headers))
   \<and> (active_on sf cs \<and> length (Cols (Sheets (sf_file sf) ! (index cs - 1))) = k \<longrightarrow>
        (length cells = k \<longrightarrow>
           (\<forall>sf'. Write e' sf cells \<noteq> Return (Some WrongNumberOfRowsError, sf')))
      \<and> (length cells \<noteq> k \<longrightarrow>
           Write e' sf cells =
             Return (Some WrongNumberOfRowsError, sf\<lparr>err := Some WrongNumberOfRowsError\<rparr>)))"
proof (intro conjI impI allI)
  assume "AddSheet e sb name headers = (None, sb')"
  then show "\<exists>sheet. Sheets (sb_file sb') = Sheets (sb_file sb) @ [sheet]
         \<and> length (Cols sheet) = length headers"
    by (rule AddSheet_columns)
next
  fix sf'
  assume a: "active_on sf cs \<and> length (Cols (Sheets (sf_file sf) ! (index cs - 1))) = k"
    and l: "length cells = k"
  then have c: "currentSheet sf = Some cs" "length cells = columnCount cs" "err sf = None"
    by (auto simp: active_on_def)
  show "Write e' sf cells \<noteq> Return (Some WrongNumberOfRowsError, sf')"
  proof
    assume w: "Write e' sf cells = Return (Some WrongNumberOfRowsError, sf')"
    show False
    proof (cases "sf_write e' sf cells")
      case (Panic p)
      with w c show False by (simp add: Write_def)
    next
      case (Return x)
      obtain eo s1 where x: "x = (eo, s1)" by (cases x)
      from sf_write_right_count [OF c(1,2), of e' s1] Return x
      have ne: "eo \<noteq> Some WrongNumberOfRowsError" by auto
      obtain eo' zw' where fl: "zip_Flush (zipWriter s1) = (eo', zw')"
        by (cases "zip_Flush (zipWriter s1)") auto
      with zip_Flush_not_count [of "zipWriter s1" zw'] have "eo' \<noteq> Some WrongNumberOfRowsError"
        by auto
      with w c Return x ne fl show False
        by (cases eo) (auto simp: Write_def)
    qed
  qed
next
  assume a: "active_on sf cs \<and> length (Cols (Sheets (sf_file sf) ! (index cs - 1))) = k"
    and l: "length cells \<noteq> k"
  then have c: "currentSheet sf = Some cs" "length cells \<noteq> columnCount cs" "err sf = None"
    by (auto simp: active_on_def)
  from sf_write_wrong_count [OF c(1,2), of e'] c(3)
  show "Write e' sf cells = Return (Some WrongNumberOfRowsError, sf\<lparr>err := Some WrongNumberOfRowsError\<rparr>)"
    by (simp add: Write_def)
qed

theorem Write_column_count_witness:
  "AddSheet demo_env (NewStreamFileBuilder []) ''S1'' [''A'', ''B''] = (None, demo_builder1 [])
   \<and> (\<exists>sheet. Sheets (sb_file (demo_builder1 [])) = Sheets (sb_file (NewStreamFileBuilder [])) @ [sheet]
         \<and> length (Cols sheet) = length [''A'', ''B''])
   \<and> active_on (demo_session1 []) \<lparr>index = 1, rowCount = 1, columnCount = 2, writer = Some 1\<rparr>
   \<and> length (Cols (Sheets (sf_file (demo_session1 [])) ! 0)) = 2
   \<and> (\<forall>sf'. Write demo_env (demo_session1 []) [''1'', ''2''] \<noteq> Return (Some WrongNumberOfRowsError, sf'))
   \<and> Write demo_env (demo_session1 []) [''1''] =
        Return (Some WrongNumberOfRowsError, (demo_session1 [])\<lparr>err := Some WrongNumberOfRowsError\<rparr>)
   \<and> Write demo_env (demo_session1 []) [''1'', ''2'', ''3''] =
        Return (Some WrongNumberOfRowsError, (demo_session1 [])\<lparr>err := Some WrongNumberOfRowsError\<rparr>)"
  using Write_column_count [of demo_env "NewStreamFileBuilder []" "''S1''" "[''A'', ''B'']" "demo_builder1 []"
      "demo_session1 []" "\<lparr>index = 1, rowCount = 1, columnCount = 2, writer = Some 1\<rparr>" 2 "[''1'', ''2'']" demo_env]
    Write_column_count [of demo_env "NewStreamFileBuilder []" "''S1''" "[''A'', ''B'']" "demo_builder1 []"
      "demo_session1 []" "\<lparr>index = 1, rowCount = 1, columnCount = 2, writer = Some 1\<rparr>" 2 "[''1'']" demo_env]
    Write_column_count [of demo_env "NewStreamFileBuilder []" "''S1''" "[''A'', ''B'']" "demo_builder1 []"
      "demo_session1 []" "\<lparr>index = 1, rowCount = 1, columnCount = 2, writer = Some 1\<rparr>" 2 "[''1'', ''2'', ''3'']" demo_env]
    demo_builder1_registered [of "[]"]
  by (simp add: active_on_def demo_session1_def demo_file1_def)











text \<open>
  On an active session a write that succeeds appends the markup of the row to the entry
  of the current sheet.
\<close>

lemma fileWriter_Write_appends:
  "fileWriter_Write zw h d = (None, zw') \<Longrightarrow> zw_entries zw' = append_to_last (zw_entries zw) d"
  by (auto simp: fileWriter_Write_def sink_step_def append_to_last_def update_last nth_last
      split: if_splits)

lemma sf_write_appends:
  assumes a: "active_on sf cs" and w: "sf_write e sf cells = Return (None, sf')"
  shows "\<exists>rowBytes rt. makeXLSXRowForStreaming e (rowCount cs) cells (refTable sf) = (Inr rowBytes, rt)
     \<and> zw_entries (zipWriter sf') = append_to_last (zw_entries (zipWriter sf)) rowBytes
     \<and> refTable sf' = rt"
proof -
  let ?cs' = "cs\<lparr>rowCount := rowCount cs + 1\<rparr>"
  from a have cur: "currentSheet sf = Some cs" by (simp add: active_on_def)
  from w cur have len: "length cells = columnCount cs"
    by (auto simp: sf_write_def split: if_splits)
  obtain r rt where m: "makeXLSXRowForStreaming e (rowCount cs) cells (refTable sf) = (r, rt)"
    by (cases "makeXLSXRowForStreaming e (rowCount cs) cells (refTable sf)") auto
  from w cur len m obtain rowBytes where r: "r = Inr rowBytes"
    by (cases r) (auto simp: sf_write_def Let_def)
  from w cur len m r obtain h where h: "writer cs = Some h"
    by (cases "writer cs") (auto simp: sf_write_def Let_def streamSheet_write_def)
  obtain eo1 zw where fw: "fileWriter_Write (zipWriter sf) h rowBytes = (eo1, zw)"
    by (cases "fileWriter_Write (zipWriter sf) h rowBytes") auto
  obtain eo2 zw' where fl: "zip_Flush zw = (eo2, zw')"
    by (cases "zip_Flush zw") auto
  from w cur len m r h fw fl have eo1: "eo1 = None"
    and sf': "sf' = sf\<lparr>currentSheet := Some ?cs', refTable := rt, zipWriter := zw'\<rparr>"
    by (cases eo1; auto simp: sf_write_def Let_def streamSheet_write_def)+
  from fileWriter_Write_appends [OF fw [unfolded eo1]] zip_Flush_fields [OF fl] m r
  show ?thesis by (simp add: sf')
qed





















section \<open>Splitting an empty sheet\<close>

lemma HasPrefix_Nil: "HasPrefix s []"
  by (simp add: HasPrefix_def)

lemma HasPrefix_Nil_Cons: "\<not> HasPrefix [] (d # ds)"
  by (simp add: HasPrefix_def)

lemma HasPrefix_Cons_Cons: "HasPrefix (c # cs) (d # ds) = (c = d \<and> HasPrefix cs ds)"
  by (auto simp: HasPrefix_def)

lemmas HasPrefix_simps = HasPrefix_Nil HasPrefix_Nil_Cons HasPrefix_Cons_Cons

lemma HasPrefix_append: "HasPrefix t sub \<Longrightarrow> t = sub @ drop (length sub) t"
  by (metis HasPrefix_def append_take_drop_id)

lemma Index_None_occurrences: "Index s sub = None \<Longrightarrow> occurrences s sub = 0"
  by (induction s) (auto simp: HasPrefix_simps split: if_splits)

lemma Index_Some_occurrences:
  "Index s sub = Some m \<Longrightarrow>
     occurrences s sub = occurrences (drop m s) sub \<and> HasPrefix (drop m s) sub \<and> m \<le> length s"
  by (induction s arbitrary: m) (auto simp: HasPrefix_simps split: if_splits)

lemma occurrences_after_tag:
  "occurrences (endSheetDataTag @ rest) endSheetDataTag = 1 + occurrences rest endSheetDataTag"
  by (simp add: endSheetDataTag_def HasPrefix_simps)

lemma length_Split:
  "length (Split s endSheetDataTag) = occurrences s endSheetDataTag + 1"
proof (induction "length s" arbitrary: s rule: less_induct)
  case less
  have ne: "endSheetDataTag \<noteq> []" by (simp add: endSheetDataTag_def)
  show ?case
  proof (cases "Index s endSheetDataTag")
    case None
    with ne show ?thesis
      by (simp add: Split.simps Index_None_occurrences)
  next
    case (Some m)
    let ?rest = "drop (m + length endSheetDataTag) s"
    from Index_Some_occurrences [OF Some]
    have o: "occurrences s endSheetDataTag = occurrences (drop m s) endSheetDataTag"
      and h: "HasPrefix (drop m s) endSheetDataTag" by simp_all
    from HasPrefix_append [OF h] have d: "drop m s = endSheetDataTag @ ?rest"
      by (simp add: add.commute)
    have "0 < length endSheetDataTag" by (simp add: endSheetDataTag_def)
    with Index_bound [OF Some] have "length s - (m + length endSheetDataTag) < length s"
      by arith
    then have "length ?rest < length s" by simp
    from less [OF this] have "length (Split ?rest endSheetDataTag) = occurrences ?rest endSheetDataTag + 1" .
    with Some ne o d occurrences_after_tag [of ?rest] show ?thesis
      by (simp add: Split.simps)
  qed
qed

lemma Split_not_Nil: "sep \<noteq> [] \<Longrightarrow> Split s sep \<noteq> []"
  by (cases "Index s sep") (simp_all add: Split.simps)

lemma Split_two:
  assumes "Split s endSheetDataTag = [p, q]"
  shows "p @ endSheetDataTag @ q = s"
proof -
  have ne: "endSheetDataTag \<noteq> []" by (simp add: endSheetDataTag_def)
  from assms ne obtain m where m: "Index s endSheetDataTag = Some m"
    by (cases "Index s endSheetDataTag") (auto simp: Split.simps)
  let ?rest = "drop (m + length endSheetDataTag) s"
  from assms ne m have p: "p = take m s" and r: "Split ?rest endSheetDataTag = [q]"
    by (simp_all add: Split.simps)
  have "q = ?rest"
  proof (cases "Index ?rest endSheetDataTag")
    case None
    with r ne show ?thesis by (simp add: Split.simps)
  next
    case (Some k)
    with r ne Split_not_Nil [OF ne, of "drop (k + length endSheetDataTag) ?rest"]
    show ?thesis by (simp add: Split.simps [of ?rest])
  qed
  moreover from Index_Some_occurrences [OF m] have "HasPrefix (drop m s) endSheetDataTag" by simp
  from HasPrefix_append [OF this] have "drop m s = endSheetDataTag @ ?rest"
    by (simp add: add.commute)
  ultimately show ?thesis using p
    by (metis append_take_drop_id)
qed


lemma splitSheet_iff:
  "(\<exists>prefix suffix. splitSheetIntoPrefixAndSuffix data = Inr (prefix, suffix))
     = (occurrences data endSheetDataTag = 1)"
  by (auto simp: splitSheetIntoPrefixAndSuffix_def Let_def length_Split)

lemma splitSheet_joins:
  assumes "splitSheetIntoPrefixAndSuffix data = Inr (prefix, suffix)"
  shows "prefix @ endSheetDataTag @ suffix = data"
proof -
  from assms have l: "length (Split data endSheetDataTag) = 2"
    and p: "prefix = Split data endSheetDataTag ! 0" "suffix = Split data endSheetDataTag ! 1"
    by (auto simp: splitSheetIntoPrefixAndSuffix_def Let_def split: if_splits)
  from l obtain a b where "Split data endSheetDataTag = [a, b]"
    by (cases "Split data endSheetDataTag" rule: list.exhaust;
        cases "tl (Split data endSheetDataTag)" rule: list.exhaust) auto
  with p Split_two [of data prefix suffix] show ?thesis by simp
qed

lemma splitSheet_fails:
  "occurrences data endSheetDataTag \<noteq> 1 \<Longrightarrow>
     splitSheetIntoPrefixAndSuffix data =
       Inl (ErrorsNew ''Unexpected Sheet XML from. SheetData close tag not found.'')"
  by (simp add: splitSheetIntoPrefixAndSuffix_def Let_def length_Split)

lemma Build_parts_append:
  "Build_parts es (xs @ ys) =
     (case Build_parts es xs of
        Panic p \<Rightarrow> Panic p
      | Return (Some er, es') \<Rightarrow> Return (Some er, es')
      | Return (None, es') \<Rightarrow> Build_parts es' ys)"
proof (induction es xs rule: Build_parts.induct)
  case (1 es)
  then show ?case by simp
next
  case (2 es path data parts)
  show ?case
  proof (cases "HasPrefix path sheetFilePathPrefix")
    case True
    with "2.IH"(1) show ?thesis
      by (auto split: outcome.splits option.splits)
  next
    case False
    with "2.IH"(2) show ?thesis
      by (auto split: prod.splits sum.splits option.splits)
  qed
qed

lemma Build_malformed_sheet:
  assumes "\<not> built sb"
    "MarshallPartsForStreaming e (sb_file sb) (sb_refTable sb) = (Inr (parts @ (path, data) # parts'), rt)"
    "Build_parts (Build_StreamFile sb rt) parts = Return (None, es)"
    "HasPrefix path sheetFilePathPrefix" "getSheetIndex es path = Return (Inr i)"
    "occurrences data endSheetDataTag \<noteq> 1"
  shows "fst (Build e sb) =
     Return (Inl (ErrorsNew ''Unexpected Sheet XML from. SheetData close tag not found.''))"
proof -
  from assms(4,5) splitSheet_fails [OF assms(6)]
  have "Build_parts es ((path, data) # parts') =
      Return (Some (ErrorsNew ''Unexpected Sheet XML from. SheetData close tag not found.''), es)"
    by (simp add: processEmptySheetXML_def)
  with assms(3) have "Build_parts (Build_StreamFile sb rt) (parts @ (path, data) # parts') =
      Return (Some (ErrorsNew ''Unexpected Sheet XML from. SheetData close tag not found.''), es)"
    by (simp add: Build_parts_append)
  with assms(1,2) show ?thesis
    by (simp add: Build_def)
qed

text \<open>
  C6: the split of an empty sheet document around the end tag of the sheet data succeeds
  exactly when the tag occurs once in the document; the prefix, the tag and the suffix
  then give the document back. With no occurrence or more than one the split fails with
  its error, and so does \<^verbatim>\<open>Build\<close> when its loop comes to that sheet part (the parts
  before it are processed and the path names a registered sheet).
\<close>

theorem splitSheet_exactly_one_marker:
  "((\<exists>prefix suffix. splitSheetIntoPrefixAndSuffix data = Inr (prefix, suffix))
      = (occurrences data endSheetDataTag = 1))
   \<and> (splitSheetIntoPrefixAndSuffix data = Inr (prefix, suffix) \<longrightarrow>
        prefix @ endSheetDataTag @ suffix = data)
   \<and> (occurrences data endSheetDataTag \<noteq> 1 \<longrightarrow>
        splitSheetIntoPrefixAndSuffix data =
          Inl (ErrorsNew ''Unexpected Sheet XML from. SheetData close tag not found.'')
        \<and> (\<not> built sb
             \<and> MarshallPartsForStreaming e (sb_file sb) (sb_refTable sb)
                 = (Inr (parts @ (path, data) # parts'), rt)
             \<and> Build_parts (Build_StreamFile sb rt) parts = Return (None, es)
             \<and> HasPrefix path sheetFilePathPrefix \<and> getSheetIndex es path = Return (Inr i) \<longrightarrow>
             fst (Build e sb) =
               Return (Inl (ErrorsNew ''Unexpected Sheet XML from. SheetData close tag not found.''))))"
  using splitSheet_iff [of data] splitSheet_joins [of data prefix suffix] splitSheet_fails [of data]
    Build_malformed_sheet [of sb e parts path data parts' rt es i]
  by blast

theorem splitSheet_exactly_one_marker_witness:
  "occurrences ''<s></sheetData></s>'' endSheetDataTag = 1
   \<and> splitSheetIntoPrefixAndSuffix ''<s></sheetData></s>'' = Inr (''<s>'', ''</s>'')
   \<and> ''<s>'' @ endSheetDataTag @ ''</s>'' = ''<s></sheetData></s>''
   \<and> occurrences ''<s/>'' endSheetDataTag = 0
   \<and> splitSheetIntoPrefixAndSuffix ''<s/>'' =
        Inl (ErrorsNew ''Unexpected Sheet XML from. SheetData close tag not found.'')
   \<and> occurrences ''</sheetData></sheetData>'' endSheetDataTag = 2
   \<and> splitSheetIntoPrefixAndSuffix ''</sheetData></sheetData>'' =
        Inl (ErrorsNew ''Unexpected Sheet XML from. SheetData close tag not found.'')
   \<and> built (demo_builder1 []) = False
   \<and> MarshallPartsForStreaming demo_env_malformed (sb_file (demo_builder1 [])) (sb_refTable (demo_builder1 []))
       = (Inr ([(''xl/workbook.xml'', ''<workbook/>'')] @ (''xl/worksheets/sheet1.xml'', ''<s/>'') # []), [])
   \<and> Build_parts (Build_StreamFile (demo_builder1 []) []) [(''xl/workbook.xml'', ''<workbook/>'')]
       = Return (None, demo_metadata1)
   \<and> HasPrefix ''xl/worksheets/sheet1.xml'' sheetFilePathPrefix
   \<and> getSheetIndex demo_metadata1 ''xl/worksheets/sheet1.xml'' = Return (Inr 0)
   \<and> fst (Build demo_env_malformed (demo_builder1 [])) =
        Return (Inl (ErrorsNew ''Unexpected Sheet XML from. SheetData close tag not found.''))"
proof -
  have o1: "occurrences ''<s></sheetData></s>'' endSheetDataTag = 1"
    and o0: "occurrences ''<s/>'' endSheetDataTag = 0"
    and o2: "occurrences ''</sheetData></sheetData>'' endSheetDataTag = 2"
    by (simp_all add: endSheetDataTag_def HasPrefix_simps)
  have s1: "splitSheetIntoPrefixAndSuffix ''<s></sheetData></s>'' = Inr (''<s>'', ''</s>'')"
    by (simp add: splitSheetIntoPrefixAndSuffix_def Split.simps endSheetDataTag_def HasPrefix_simps)
  have b: "built (demo_builder1 []) = False"
    and m: "MarshallPartsForStreaming demo_env_malformed (sb_file (demo_builder1 [])) (sb_refTable (demo_builder1 []))
       = (Inr ([(''xl/workbook.xml'', ''<workbook/>'')] @ (''xl/worksheets/sheet1.xml'', ''<s/>'') # []), [])"
    by (simp_all add: demo_builder1_def demo_env_malformed_def demo_env_def)
  have p: "Build_parts (Build_StreamFile (demo_builder1 []) []) [(''xl/workbook.xml'', ''<workbook/>'')]
       = Return (None, demo_metadata1)"
    by (simp add: Build_StreamFile_def demo_builder1_def demo_file1_def demo_metadata1_def
        sheetFilePathPrefix_def zip_defs HasPrefix_simps)
  have h: "HasPrefix ''xl/worksheets/sheet1.xml'' sheetFilePathPrefix"
    by (simp add: sheetFilePathPrefix_def HasPrefix_simps)
  have g: "getSheetIndex demo_metadata1 ''xl/worksheets/sheet1.xml'' = Return (Inr 0)"
    by (simp add: getSheetIndex_def demo_metadata1_def demo_file1_def sheetFilePathPrefix_def
        sheetFilePathSuffix_def Atoi_def is_digit_def)
  from splitSheet_exactly_one_marker [of "''<s></sheetData></s>''" "''<s>''" "''</s>''"] s1
  have j: "''<s>'' @ endSheetDataTag @ ''</s>'' = ''<s></sheetData></s>''"
    by simp
  from splitSheet_exactly_one_marker [of "''<s/>''" _ _ "demo_builder1 []" demo_env_malformed
      "[(''xl/workbook.xml'', ''<workbook/>'')]" "''xl/worksheets/sheet1.xml''" "[]" "[]" demo_metadata1 0]
    o0 b m p h g
  have s0: "splitSheetIntoPrefixAndSuffix ''<s/>'' =
        Inl (ErrorsNew ''Unexpected Sheet XML from. SheetData close tag not found.'')"
    and bf: "fst (Build demo_env_malformed (demo_builder1 [])) =
        Return (Inl (ErrorsNew ''Unexpected Sheet XML from. SheetData close tag not found.''))"
    by simp_all
  from splitSheet_exactly_one_marker [of "''</sheetData></sheetData>''"] o2
  have s2: "splitSheetIntoPrefixAndSuffix ''</sheetData></sheetData>'' =
        Inl (ErrorsNew ''Unexpected Sheet XML from. SheetData close tag not found.'')"
    by simp
  show ?thesis
    by (intro conjI) (rule o1 s1 j o0 s0 o2 s2 b m p h g bf)+
qed

section \<open>The builder is used once\<close>

text \<open>
  \<^verbatim>\<open>AddSheet\<close> and \<^verbatim>\<open>Build\<close> refuse a builder that is built, and leave it as it
  is; \<^verbatim>\<open>Build\<close> always leaves the builder built, and so does an \<^verbatim>\<open>AddSheet\<close> that
  fails.
\<close>

lemma built_AddSheet: "built sb \<Longrightarrow> AddSheet e sb name headers = (Some BuiltStreamFileBuilderError, sb)"
  by (simp add: AddSheet_def)

lemma built_Build: "built sb \<Longrightarrow> Build e sb = (Return (Inl BuiltStreamFileBuilderError), sb)"
  by (simp add: Build_def)

lemma Build_builds: "built (snd (Build e sb))"
  by (auto simp: Build_def Let_def split: prod.splits sum.splits outcome.splits option.splits)

lemma AddSheet_failure_builds: "AddSheet e sb name headers = (Some er, sb') \<Longrightarrow> built sb'"
  by (auto simp: AddSheet_def split: if_splits sum.splits prod.splits)

text \<open>
  C8: after \<^verbatim>\<open>Build\<close>, or after an \<^verbatim>\<open>AddSheet\<close> that failed, every call on the
  builder fails with \<^verbatim>\<open>BuiltStreamFileBuilderError\<close> and leaves the builder
  unchanged. \<^verbatim>\<open>AddSharedStrings\<close> breaks this: it does not look at \<^verbatim>\<open>built\<close> and
  has no error to return, so on the builder of the workbook with one sheet, after
  \<^verbatim>\<open>Build\<close>, it adds the string to the table.
\<close>

theorem AddSharedStrings_after_Build:
  "snd (Build demo_env (demo_builder1 [])) = demo_built1
   \<and> built demo_built1
   \<and> AddSheet demo_env demo_built1 ''S2'' [''C''] = (Some BuiltStreamFileBuilderError, demo_built1)
   \<and> Build demo_env demo_built1 = (Return (Inl BuiltStreamFileBuilderError), demo_built1)
   \<and> AddSharedStrings demo_built1 [''x''] = demo_built1\<lparr>sb_refTable := [''x'']\<rparr>
   \<and> AddSharedStrings demo_built1 [''x''] \<noteq> demo_built1"
  using demo_built1_built
  by (simp add: AddSheet_def Build_def AddSharedStrings_def AddString_def demo_built1_def)

text \<open>
  When no part is a sheet and the sink works, the loop of \<^verbatim>\<open>Build\<close> over the parts
  succeeds; and whenever it succeeds on a file with no sheets, the \<^verbatim>\<open>NextSheet\<close>
  that follows indexes the empty list of sheets.
\<close>

lemma Build_parts_metadata:
  assumes "\<forall>(path, data) \<in> set parts. \<not> HasPrefix path sheetFilePathPrefix"
    "zw_faults (zipWriter es) = []"
  shows "\<exists>es'. Build_parts es parts = Return (None, es')"
  using assms
proof (induction parts arbitrary: es)
  case Nil
  then show ?case by simp
next
  case (Cons part parts)
  obtain path data where part: "part = (path, data)" by (cases part)
  let ?zw = "zipWriter es"
  let ?zw1 = "?zw\<lparr>zw_entries := zw_entries ?zw @ [(path, [])], zw_last_open := True\<rparr>"
  let ?zw2 = "?zw\<lparr>zw_entries := zw_entries ?zw @ [(path, data)], zw_last_open := True\<rparr>"
  from Cons.prems(2) have c: "zip_Create ?zw path = (Inr (length (zw_entries ?zw)), ?zw1)"
    by (cases ?zw) (simp add: zip_Create_def sink_fails_def sink_step_def)
  from Cons.prems(2) have w: "fileWriter_Write ?zw1 (length (zw_entries ?zw)) data = (None, ?zw2)"
    by (cases ?zw) (simp add: fileWriter_Write_def sink_fails_def sink_step_def)
  from Cons.prems have "\<exists>es'. Build_parts (es\<lparr>zipWriter := ?zw2\<rparr>) parts = Return (None, es')"
    by (intro Cons.IH) auto
  with Cons.prems(1) part c w show ?case by simp
qed

lemma Build_no_sheets:
  assumes "\<not> built sb" "Sheets (sb_file sb) = []"
    "MarshallPartsForStreaming e (sb_file sb) (sb_refTable sb) = (Inr parts, rt)"
    "Build_parts (Build_StreamFile sb rt) parts = Return (None, es)"
  shows "fst (Build e sb) = Panic IndexOutOfRange"
proof -
  from Build_parts_fields [OF assms(4)] assms(2)
  have "currentSheet es = None" "err es = None" "Sheets (sf_file es) = []"
    by (simp_all add: Build_StreamFile_def)
  then have "NextSheet es = Panic IndexOutOfRange"
    by (simp add: NextSheet_def NextSheet_open_def)
  with assms show ?thesis
    by (simp add: Build_def)
qed

text \<open>
  C10: \<^verbatim>\<open>Build\<close> on a builder with no sheet registered, when the template
  collaborator gives no sheet part (and the sink works, so that the other parts are
  written), ends in the \<^verbatim>\<open>NextSheet\<close> that reads the sheet at index 0 of an empty
  list: a panic for an index out of range, not an error value.
\<close>

theorem Build_without_sheets_panics:
  assumes "\<not> built sb" "Sheets (sb_file sb) = []"
    "MarshallPartsForStreaming e (sb_file sb) (sb_refTable sb) = (Inr parts, rt)"
    "\<forall>(path, data) \<in> set parts. \<not> HasPrefix path sheetFilePathPrefix"
    "zw_faults (sb_zipWriter sb) = []"
  shows "fst (Build e sb) = Panic IndexOutOfRange"
proof -
  from assms(4,5) obtain es where "Build_parts (Build_StreamFile sb rt) parts = Return (None, es)"
    using Build_parts_metadata [of parts "Build_StreamFile sb rt"]
    by (auto simp: Build_StreamFile_def)
  with assms(1-3) show ?thesis by (rule Build_no_sheets)
qed

theorem Build_without_sheets_panics_witness:
  "\<not> built (NewStreamFileBuilder [])
   \<and> Sheets (sb_file (NewStreamFileBuilder [])) = []
   \<and> MarshallPartsForStreaming demo_env (sb_file (NewStreamFileBuilder [])) (sb_refTable (NewStreamFileBuilder []))
       = (Inr [(''xl/workbook.xml'', ''<workbook/>'')], [])
   \<and> \<not> HasPrefix ''xl/workbook.xml'' sheetFilePathPrefix
   \<and> zw_faults (sb_zipWriter (NewStreamFileBuilder [])) = []
   \<and> fst (Build demo_env (NewStreamFileBuilder [])) = Panic IndexOutOfRange"
  using Build_without_sheets_panics [of "NewStreamFileBuilder []" demo_env "[(''xl/workbook.xml'', ''<workbook/>'')]" "[]"]
  by (simp add: NewStreamFileBuilder_def demo_env_def demo_parts_def sheetFilePathPrefix_def
      HasPrefix_def)

end
